theory Spec2Isabelle
  imports Complex_Main
begin

section \<open>Expression trees: data model\<close>

text \<open>
  The program is \<^verbatim>\<open>expression_tree.py\<close>. Tokens are Python strings; they are modelled
  as \<^typ>\<open>string\<close> and stand for ASCII text (a character outside ASCII is classified
  as not alphanumeric here).

  A \<^verbatim>\<open>TreeNode\<close> object holds \<^verbatim>\<open>value\<close>, \<^verbatim>\<open>left\<close> and \<^verbatim>\<open>right\<close>;
  a child is either another node or Python's \<^verbatim>\<open>None\<close>, which is the constructor
  \<open>NoneNode\<close>. The builders attach children only to a node they have just created,
  so no node is shared and the tree is a value.
\<close>

datatype TreeNode =
    NoneNode
  | TreeNode (node_value: string) (left: TreeNode) (right: TreeNode)

text \<open>
  Exceptions are values. \<open>ValueError\<close> carries the message the source gives it; the
  other three are raised by Python itself (indexing or popping an empty list, a missing
  dictionary key, a zero divisor).
\<close>

datatype error =
    ValueError string
  | IndexError
  | KeyError
  | ZeroDivisionError

section \<open>Token classifier\<close>

definition is_operator :: "string \<Rightarrow> bool" where
  "is_operator token = (token \<in> {''+'', ''-'', ''*'', ''/'', ''^''})"

definition isalnum_char :: "char \<Rightarrow> bool" where
  "isalnum_char c =
     (let n = (of_char c :: nat)
      in (48 \<le> n \<and> n \<le> 57) \<or> (65 \<le> n \<and> n \<le> 90) \<or> (97 \<le> n \<and> n \<le> 122))"

definition isalnum :: "string \<Rightarrow> bool" where
  \<comment> \<open>\<^verbatim>\<open>str.isalnum\<close>: at least one character, and every character alphanumeric.\<close>
  "isalnum s = (s \<noteq> [] \<and> list_all isalnum_char s)"

definition is_operand :: "string \<Rightarrow> bool" where
  "is_operand token = isalnum token"

section \<open>Tree builder\<close>

text \<open>
  The build stack is a Python list used as a stack: \<^verbatim>\<open>append\<close> adds at the end and
  \<^verbatim>\<open>pop\<close> removes the last element, so the top of the stack is the last element of
  the list. Each \<open>for\<close> loop is a recursion over the tokens that are left, with the
  stack as its state.
\<close>

fun postfix_loop :: "TreeNode list \<Rightarrow> string list \<Rightarrow> error + TreeNode list" where
  "postfix_loop stack [] = Inr stack"
| "postfix_loop stack (token # rest) =
     (if is_operand token then
        postfix_loop (stack @ [TreeNode token NoneNode NoneNode]) rest
      else if is_operator token then
        (if length stack < 2 then
           Inl (ValueError ''Invalid postfix expression. Not enough operands.'')
         else
           let r = last stack; stack1 = butlast stack;
               l = last stack1; stack2 = butlast stack1
           in postfix_loop (stack2 @ [TreeNode token l r]) rest)
      else Inl (ValueError (''Invalid token in postfix expression: '' @ token)))"

definition build_tree_from_postfix :: "string list \<Rightarrow> error + TreeNode" where
  "build_tree_from_postfix postfix =
     (case postfix_loop [] postfix of
        Inl e \<Rightarrow> Inl e
      | Inr stack \<Rightarrow>
          if length stack \<noteq> 1 then
            Inl (ValueError
              ''Invalid postfix expression. Incorrect number of operands/operators.'')
          else Inr (last stack))"

fun prefix_loop :: "TreeNode list \<Rightarrow> string list \<Rightarrow> error + TreeNode list" where
  "prefix_loop stack [] = Inr stack"
| "prefix_loop stack (token # rest) =
     (if is_operand token then
        prefix_loop (stack @ [TreeNode token NoneNode NoneNode]) rest
      else if is_operator token then
        (if length stack < 2 then
           Inl (ValueError ''Invalid prefix expression. Not enough operands.'')
         else
           let l = last stack; stack1 = butlast stack;
               r = last stack1; stack2 = butlast stack1
           in prefix_loop (stack2 @ [TreeNode token l r]) rest)
      else Inl (ValueError (''Invalid token in prefix expression: '' @ token)))"

definition build_tree_from_prefix :: "string list \<Rightarrow> error + TreeNode" where
  \<comment> \<open>The loop runs over \<^verbatim>\<open>reversed(prefix)\<close>.\<close>
  "build_tree_from_prefix prefix =
     (case prefix_loop [] (rev prefix) of
        Inl e \<Rightarrow> Inl e
      | Inr stack \<Rightarrow>
          if length stack \<noteq> 1 then
            Inl (ValueError
              ''Invalid prefix expression. Incorrect number of operands/operators.'')
          else Inr (last stack))"

section \<open>Infix to postfix\<close>

text \<open>
  The two dictionaries of \<^verbatim>\<open>infix_to_postfix\<close> are maps; subscripting a dictionary
  with a key it does not hold raises \<^verbatim>\<open>KeyError\<close>. \<open>yields_to\<close> is the part of the
  first \<^verbatim>\<open>while\<close> condition that reads them, evaluated left to right with Python's
  short-circuit rules. The three \<^verbatim>\<open>while\<close> loops pop the operator stack, which
  gets shorter at each turn; \<open>paren_while\<close> is followed in the source by an
  unguarded \<^verbatim>\<open>stack.pop()\<close>, which raises \<^verbatim>\<open>IndexError\<close> on an empty stack.
\<close>

definition precedence :: "string \<Rightarrow> nat option" where
  "precedence = map_of [(''+'', 1), (''-'', 1), (''*'', 2), (''/'', 2), (''^'', 3)]"

definition associativity :: "string \<Rightarrow> string option" where
  "associativity =
     map_of [(''+'', ''L''), (''-'', ''L''), (''*'', ''L''), (''/'', ''L''), (''^'', ''R'')]"

definition dict_getitem :: "('k \<Rightarrow> 'v option) \<Rightarrow> 'k \<Rightarrow> error + 'v" where
  "dict_getitem d k = (case d k of None \<Rightarrow> Inl KeyError | Some v \<Rightarrow> Inr v)"

definition yields_to :: "string \<Rightarrow> string \<Rightarrow> error + bool" where
  "yields_to token stack_top =
     (case dict_getitem precedence token of
        Inl e \<Rightarrow> Inl e
      | Inr pt \<Rightarrow>
          (case dict_getitem precedence stack_top of
             Inl e \<Rightarrow> Inl e
           | Inr ps \<Rightarrow>
               if pt < ps then Inr True
               else if pt = ps then
                 (case dict_getitem associativity token of
                    Inl e \<Rightarrow> Inl e
                  | Inr a \<Rightarrow> Inr (a = ''L''))
               else Inr False))"

function operator_while ::
  "string \<Rightarrow> string list \<Rightarrow> string list \<Rightarrow> error + (string list \<times> string list)" where
  "operator_while token output stack =
     (if stack \<noteq> [] \<and> last stack \<noteq> ''('' then
        (case yields_to token (last stack) of
           Inl e \<Rightarrow> Inl e
         | Inr go \<Rightarrow>
             if go then operator_while token (output @ [last stack]) (butlast stack)
             else Inr (output, stack))
      else Inr (output, stack))"
  by pat_completeness auto
termination
  by (relation "measure (\<lambda>(token, output, stack). length stack)") auto

declare operator_while.simps [simp del]

function paren_while :: "string list \<Rightarrow> string list \<Rightarrow> string list \<times> string list" where
  "paren_while output stack =
     (if stack \<noteq> [] \<and> last stack \<noteq> ''('' then
        paren_while (output @ [last stack]) (butlast stack)
      else (output, stack))"
  by pat_completeness auto
termination
  by (relation "measure (\<lambda>(output, stack). length stack)") auto

declare paren_while.simps [simp del]

function final_while :: "string list \<Rightarrow> string list \<Rightarrow> string list" where
  "final_while output stack =
     (if stack \<noteq> [] then final_while (output @ [last stack]) (butlast stack)
      else output)"
  by pat_completeness auto
termination
  by (relation "measure (\<lambda>(output, stack). length stack)") auto

declare final_while.simps [simp del]

fun infix_loop ::
  "string list \<times> string list \<Rightarrow> string list \<Rightarrow> error + (string list \<times> string list)" where
  "infix_loop (output, stack) [] = Inr (output, stack)"
| "infix_loop (output, stack) (token # rest) =
     (if is_operand token then infix_loop (output @ [token], stack) rest
      else if is_operator token then
        (case operator_while token output stack of
           Inl e \<Rightarrow> Inl e
         | Inr (output', stack') \<Rightarrow> infix_loop (output', stack' @ [token]) rest)
      else if token = ''('' then infix_loop (output, stack @ [token]) rest
      else if token = '')'' then
        (case paren_while output stack of
           (output', stack') \<Rightarrow>
             if stack' = [] then Inl IndexError
             else infix_loop (output', butlast stack') rest)
      else Inl (ValueError (''Invalid token in infix expression: '' @ token)))"

definition infix_to_postfix :: "string list \<Rightarrow> error + string list" where
  "infix_to_postfix expression =
     (case infix_loop ([], []) expression of
        Inl e \<Rightarrow> Inl e
      | Inr (output, stack) \<Rightarrow> Inr (final_while output stack))"

section \<open>Notation detector\<close>

text \<open>
  \<^verbatim>\<open>expression[0]\<close> and \<^verbatim>\<open>expression[-1]\<close> are Python list subscripts: a negative
  index counts from the end, and an index out of range raises \<^verbatim>\<open>IndexError\<close>.
\<close>

definition list_getitem :: "'a list \<Rightarrow> int \<Rightarrow> error + 'a" where
  "list_getitem xs i =
     (let j = (if i < 0 then i + int (length xs) else i)
      in if 0 \<le> j \<and> j < int (length xs) then Inr (xs ! nat j) else Inl IndexError)"

definition detect_expression_type :: "string list \<Rightarrow> error + string" where
  "detect_expression_type expression =
     (case list_getitem expression 0 of
        Inl e \<Rightarrow> Inl e
      | Inr first \<Rightarrow>
          if is_operator first then Inr ''prefix''
          else
            (case list_getitem expression (- 1) of
               Inl e \<Rightarrow> Inl e
             | Inr last_token \<Rightarrow>
                 if is_operator last_token then Inr ''postfix'' else Inr ''infix''))"

section \<open>Tree converter\<close>

fun to_infix :: "TreeNode \<Rightarrow> string" where
  "to_infix NoneNode = ''''"
| "to_infix (TreeNode v l r) =
     (if is_operator v then ''('' @ to_infix l @ '' '' @ v @ '' '' @ to_infix r @ '')''
      else v)"



section \<open>Tree evaluator\<close>

text \<open>
  \<^verbatim>\<open>evaluate_tree\<close> returns Python numbers: the \<^verbatim>\<open>int\<close> \<^verbatim>\<open>0\<close> for an absent
  node, a \<^verbatim>\<open>float\<close> for everything else. A finite \<^verbatim>\<open>float\<close> is carried as the
  rational number it denotes (\<^verbatim>\<open>0.0\<close> and \<^verbatim>\<open>-0.0\<close>, which Python's \<^verbatim>\<open>==\<close> does
  not tell apart, are both \<open>0\<close>).

  An outcome is a returned value, a raised exception, or \<open>Unknown\<close>: the model does
  not say what Python does. It follows Python's floats exactly as far as binary
  floating point is exact, and no further.
\<close>

datatype pynum = PyInt int | PyFloat rat

datatype 'a result = Returns 'a | Raises error | Unknown

text \<open>
  A binary64 number is \<open>m * 2 ^ e\<close> with \<open>\<bar>m\<bar> < 2 ^ 53\<close> and \<open>- 1074 \<le> e \<le> 971\<close>.
  \<open>exact64 q\<close> is a sufficient test for that: in lowest terms \<open>q\<close> has a numerator
  below \<open>2 ^ 53\<close> in absolute value and a denominator \<open>2 ^ k\<close> with \<open>k \<le> 1074\<close>.
  Python's \<^verbatim>\<open>float(s)\<close>, its conversion of an \<^verbatim>\<open>int\<close> to \<^verbatim>\<open>float\<close>, and
  \<^verbatim>\<open>+ - * /\<close> on floats all round the exact result to the nearest binary64 number, so
  an exact result that passes the test is the result Python returns; \<open>fl\<close> returns
  it, and answers \<open>Unknown\<close> otherwise (rounding, overflow, infinities and NaN are
  outside the model).
\<close>

definition exact64 :: "rat \<Rightarrow> bool" where
  "exact64 q = (case quotient_of q of (n, d) \<Rightarrow> \<bar>n\<bar> < 2 ^ 53 \<and> d dvd 2 ^ 1074)"

definition fl :: "rat \<Rightarrow> pynum result" where
  "fl q = (if exact64 q then Returns (PyFloat q) else Unknown)"

text \<open>
  Arithmetic, as \<^verbatim>\<open>operator.add\<close>, \<^verbatim>\<open>sub\<close>, \<^verbatim>\<open>mul\<close>, \<^verbatim>\<open>truediv\<close> and
  \<^verbatim>\<open>pow\<close> do it. Two \<^verbatim>\<open>int\<close>s add, subtract and multiply to an \<^verbatim>\<open>int\<close>; in every
  other case both operands are converted to \<^verbatim>\<open>float\<close> first. True division tests the
  divisor against zero before it divides and raises \<^verbatim>\<open>ZeroDivisionError\<close>. For
  \<^verbatim>\<open>pow\<close> on floats only the cases Python decides before it calls the C library are
  modelled: a zero exponent, a zero base, the base one.
\<close>

fun as_float :: "pynum \<Rightarrow> rat result" where
  "as_float (PyFloat q) = Returns q"
| "as_float (PyInt i) = (if exact64 (of_int i) then Returns (of_int i) else Unknown)"

definition float_args ::
  "pynum \<Rightarrow> pynum \<Rightarrow> (rat \<Rightarrow> rat \<Rightarrow> pynum result) \<Rightarrow> pynum result" where
  "float_args a b f =
     (case as_float a of
        Returns x \<Rightarrow>
          (case as_float b of
             Returns y \<Rightarrow> f x y
           | Raises e \<Rightarrow> Raises e
           | Unknown \<Rightarrow> Unknown)
      | Raises e \<Rightarrow> Raises e
      | Unknown \<Rightarrow> Unknown)"

fun py_add :: "pynum \<Rightarrow> pynum \<Rightarrow> pynum result" where
  "py_add (PyInt i) (PyInt j) = Returns (PyInt (i + j))"
| "py_add a b = float_args a b (\<lambda>x y. fl (x + y))"

fun py_sub :: "pynum \<Rightarrow> pynum \<Rightarrow> pynum result" where
  "py_sub (PyInt i) (PyInt j) = Returns (PyInt (i - j))"
| "py_sub a b = float_args a b (\<lambda>x y. fl (x - y))"

fun py_mul :: "pynum \<Rightarrow> pynum \<Rightarrow> pynum result" where
  "py_mul (PyInt i) (PyInt j) = Returns (PyInt (i * j))"
| "py_mul a b = float_args a b (\<lambda>x y. fl (x * y))"

fun py_truediv :: "pynum \<Rightarrow> pynum \<Rightarrow> pynum result" where
  "py_truediv (PyInt i) (PyInt j) =
     (if j = 0 then Raises ZeroDivisionError else fl (of_int i / of_int j))"
| "py_truediv a b =
     float_args a b (\<lambda>x y. if y = 0 then Raises ZeroDivisionError else fl (x / y))"

definition float_pow :: "rat \<Rightarrow> rat \<Rightarrow> pynum result" where
  "float_pow x y =
     (if y = 0 then fl 1
      else if x = 0 then (if y < 0 then Raises ZeroDivisionError else fl 0)
      else if x = 1 then fl 1
      else Unknown)"

fun py_pow :: "pynum \<Rightarrow> pynum \<Rightarrow> pynum result" where
  "py_pow (PyInt i) (PyInt j) =
     (if 0 \<le> j then Returns (PyInt (i ^ nat j))
      else float_args (PyInt i) (PyInt j) float_pow)"
| "py_pow a b = float_args a b float_pow"

text \<open>
  \<^verbatim>\<open>float(s)\<close> on an alphanumeric ASCII string: decimal digits, or digits followed by
  \<^verbatim>\<open>e\<close> or \<^verbatim>\<open>E\<close> and digits, denote a number; \<^verbatim>\<open>inf\<close>, \<^verbatim>\<open>infinity\<close> and
  \<^verbatim>\<open>nan\<close> in any letter case are accepted too and lie outside the model; every other
  alphanumeric string raises \<^verbatim>\<open>ValueError\<close>. \<^verbatim>\<open>evaluate_tree\<close> only calls it on
  alphanumeric strings; for any other string the answer is \<open>Unknown\<close>.
\<close>

definition isdigit_char :: "char \<Rightarrow> bool" where
  "isdigit_char c = (let n = (of_char c :: nat) in 48 \<le> n \<and> n \<le> 57)"

definition decimal :: "string \<Rightarrow> nat" where
  "decimal s = foldl (\<lambda>a c. 10 * a + (of_char c - 48)) 0 s"

definition lower_char :: "char \<Rightarrow> char" where
  "lower_char c =
     (let n = (of_char c :: nat) in if 65 \<le> n \<and> n \<le> 90 then char_of (n + 32) else c)"

definition py_float :: "string \<Rightarrow> pynum result" where
  "py_float s =
     (let mantissa = takeWhile isdigit_char s; rest = dropWhile isdigit_char s
      in if \<not> isalnum s then Unknown
         else if rest = [] then fl (of_nat (decimal mantissa))
         else if mantissa \<noteq> [] \<and> lower_char (hd rest) = CHR ''e'' \<and> tl rest \<noteq> []
                 \<and> list_all isdigit_char (tl rest)
           then fl (of_nat (decimal mantissa) * 10 ^ decimal (tl rest))
         else if map lower_char s \<in> {''inf'', ''infinity'', ''nan''} then Unknown
         else Raises (ValueError (''could not convert string to float: '' @ s)))"

definition operations :: "string \<Rightarrow> (pynum \<Rightarrow> pynum \<Rightarrow> pynum result) option" where
  "operations =
     map_of [(''+'', py_add), (''-'', py_sub), (''*'', py_mul), (''/'', py_truediv),
             (''^'', py_pow)]"

fun evaluate_tree :: "TreeNode \<Rightarrow> pynum result" where
  "evaluate_tree NoneNode = Returns (PyInt 0)"
| "evaluate_tree (TreeNode v l r) =
     (if is_operand v then
        (case py_float v of
           Raises (ValueError m) \<Rightarrow>
             Raises (ValueError ''Cannot evaluate expression with variables.'')
         | res \<Rightarrow> res)
      else if is_operator v then
        (case evaluate_tree l of
           Returns left_value \<Rightarrow>
             (case evaluate_tree r of
                Returns right_value \<Rightarrow>
                  (case operations v of
                     None \<Rightarrow> Raises KeyError
                   | Some f \<Rightarrow> f left_value right_value)
              | Raises e \<Rightarrow> Raises e
              | Unknown \<Rightarrow> Unknown)
         | Raises e \<Rightarrow> Raises e
         | Unknown \<Rightarrow> Unknown)
      else Raises (ValueError ''Invalid node in expression tree.''))"



section \<open>The node invariant\<close>

text \<open>
  The invariant of the data model, for every node of a tree: an operand node is a leaf,
  an operator node has both children. \<open>stack_ok\<close> says that every entry of a build
  stack is a node (not \<^verbatim>\<open>None\<close>) whose tree satisfies it.
\<close>

fun node_invariant :: "TreeNode \<Rightarrow> bool" where
  "node_invariant NoneNode = True"
| "node_invariant (TreeNode v l r) =
     ((is_operand v \<longrightarrow> l = NoneNode \<and> r = NoneNode) \<and>
      (is_operator v \<longrightarrow> l \<noteq> NoneNode \<and> r \<noteq> NoneNode) \<and>
      node_invariant l \<and> node_invariant r)"

definition stack_ok :: "TreeNode list \<Rightarrow> bool" where
  "stack_ok stack = list_all (\<lambda>n. n \<noteq> NoneNode \<and> node_invariant n) stack"

section \<open>Properties of the builders\<close>

lemma operator_not_operand: "is_operator t \<Longrightarrow> \<not> is_operand t"
  by (auto simp: is_operator_def is_operand_def isalnum_def isalnum_char_def)

lemma two_on_top:
  assumes "\<not> length stack < 2"
  shows "stack = butlast (butlast stack) @ [last (butlast stack), last stack]"
proof -
  from assms have ne: "stack \<noteq> []" by auto
  from assms have ne1: "butlast stack \<noteq> []" by (cases stack rule: rev_cases) auto
  have "stack = butlast stack @ [last stack]" using ne by simp
  also have "butlast stack = butlast (butlast stack) @ [last (butlast stack)]" using ne1 by simp
  finally show ?thesis by simp
qed



lemma singleton_stack: "length stack = 1 \<Longrightarrow> stack = [last stack]"
  by (cases stack) auto



lemma stack_ok_two:
  assumes "stack_ok stack" "\<not> length stack < 2"
  shows "stack_ok (butlast (butlast stack))" "last stack \<noteq> NoneNode" "node_invariant (last stack)"
    "last (butlast stack) \<noteq> NoneNode" "node_invariant (last (butlast stack))"
proof -
  from assms(1) two_on_top[OF assms(2)]
  have "stack_ok (butlast (butlast stack) @ [last (butlast stack), last stack])" by simp
  then show "stack_ok (butlast (butlast stack))" "last stack \<noteq> NoneNode" "node_invariant (last stack)"
    "last (butlast stack) \<noteq> NoneNode" "node_invariant (last (butlast stack))"
    by (simp_all add: stack_ok_def)
qed

lemma postfix_loop_ok:
  "postfix_loop stack ts = Inr stack' \<Longrightarrow> stack_ok stack \<Longrightarrow> stack_ok stack'"
proof (induction ts arbitrary: stack)
  case Nil
  then show ?case by simp
next
  case (Cons t ts)
  show ?case
  proof (cases "is_operand t")
    case True
    then have nop: "\<not> is_operator t" using operator_not_operand by blast
    from True Cons.prems have "postfix_loop (stack @ [TreeNode t NoneNode NoneNode]) ts = Inr stack'"
      by simp
    moreover have "stack_ok (stack @ [TreeNode t NoneNode NoneNode])"
      using Cons.prems(2) nop by (simp add: stack_ok_def)
    ultimately show ?thesis by (rule Cons.IH)
  next
    case False
    with Cons.prems have op: "is_operator t" and len: "\<not> length stack < 2"
      by (auto split: if_splits)
    let ?s2 = "butlast (butlast stack)"
    let ?l = "last (butlast stack)"
    let ?r = "last stack"
    from Cons.prems False op len
    have "postfix_loop (?s2 @ [TreeNode t ?l ?r]) ts = Inr stack'"
      by (simp add: Let_def)
    moreover have "stack_ok (?s2 @ [TreeNode t ?l ?r])"
      using stack_ok_two[OF Cons.prems(2) len] False by (simp add: stack_ok_def)
    ultimately show ?thesis by (rule Cons.IH)
  qed
qed

lemma prefix_loop_ok:
  "prefix_loop stack ts = Inr stack' \<Longrightarrow> stack_ok stack \<Longrightarrow> stack_ok stack'"
proof (induction ts arbitrary: stack)
  case Nil
  then show ?case by simp
next
  case (Cons t ts)
  show ?case
  proof (cases "is_operand t")
    case True
    then have nop: "\<not> is_operator t" using operator_not_operand by blast
    from True Cons.prems have "prefix_loop (stack @ [TreeNode t NoneNode NoneNode]) ts = Inr stack'"
      by simp
    moreover have "stack_ok (stack @ [TreeNode t NoneNode NoneNode])"
      using Cons.prems(2) nop by (simp add: stack_ok_def)
    ultimately show ?thesis by (rule Cons.IH)
  next
    case False
    with Cons.prems have op: "is_operator t" and len: "\<not> length stack < 2"
      by (auto split: if_splits)
    let ?s2 = "butlast (butlast stack)"
    let ?r = "last (butlast stack)"
    let ?l = "last stack"
    from Cons.prems False op len
    have "prefix_loop (?s2 @ [TreeNode t ?l ?r]) ts = Inr stack'"
      by (simp add: Let_def)
    moreover have "stack_ok (?s2 @ [TreeNode t ?l ?r])"
      using stack_ok_two[OF Cons.prems(2) len] False by (simp add: stack_ok_def)
    ultimately show ?thesis by (rule Cons.IH)
  qed
qed

lemmas classify_defs = is_operand_def is_operator_def isalnum_def isalnum_char_def

lemma postfix_loop_append:
  "postfix_loop stack (pre @ post) =
     (case postfix_loop stack pre of Inl e \<Rightarrow> Inl e | Inr stack' \<Rightarrow> postfix_loop stack' post)"
  by (induction pre arbitrary: stack) (simp_all add: Let_def)

lemma build_postfix_ok:
  assumes "build_tree_from_postfix ts = Inr T"
  shows "T \<noteq> NoneNode \<and> node_invariant T"
proof -
  from assms obtain stack where loop: "postfix_loop [] ts = Inr stack"
    and len: "length stack = 1" and T: "T = last stack"
    by (auto simp: build_tree_from_postfix_def split: sum.splits if_splits)
  have "stack_ok []" by (simp add: stack_ok_def)
  with loop have "stack_ok stack" by (rule postfix_loop_ok)
  moreover from singleton_stack[OF len] T have "stack = [T]" by simp
  ultimately show ?thesis by (simp add: stack_ok_def)
qed

lemma build_prefix_ok:
  assumes "build_tree_from_prefix ts = Inr T"
  shows "T \<noteq> NoneNode \<and> node_invariant T"
proof -
  from assms obtain stack where loop: "prefix_loop [] (rev ts) = Inr stack"
    and len: "length stack = 1" and T: "T = last stack"
    by (auto simp: build_tree_from_prefix_def split: sum.splits if_splits)
  have "stack_ok []" by (simp add: stack_ok_def)
  with loop have "stack_ok stack" by (rule prefix_loop_ok)
  moreover from singleton_stack[OF len] T have "stack = [T]" by simp
  ultimately show ?thesis by (simp add: stack_ok_def)
qed

section \<open>Properties of the converter and the detector\<close>

lemmas shunting_defs = infix_to_postfix_def operator_while.simps paren_while.simps
  final_while.simps yields_to_def dict_getitem_def precedence_def associativity_def

lemma final_while_rev: "final_while out stack = out @ rev stack"
proof (induction out stack rule: final_while.induct)
  case (1 out stack)
  show ?case
  proof (cases "stack = []")
    case True
    then show ?thesis by (simp add: final_while.simps)
  next
    case False
    then have "final_while out stack = final_while (out @ [last stack]) (butlast stack)"
      by (subst final_while.simps) simp
    also have "\<dots> = (out @ [last stack]) @ rev (butlast stack)"
      using False by (rule "1.IH")
    also have "\<dots> = out @ rev (butlast stack @ [last stack])" by simp
    finally show ?thesis using False by simp
  qed
qed

lemma paren_while_no_paren:
  "''('' \<notin> set stack \<Longrightarrow> snd (paren_while out stack) = []"
proof (induction out stack rule: paren_while.induct)
  case (1 out stack)
  show ?case
  proof (cases "stack = []")
    case True
    then show ?thesis by (simp add: paren_while.simps)
  next
    case False
    with "1.prems" have top: "last stack \<noteq> ''(''" by (metis last_in_set)
    from "1.prems" have "''('' \<notin> set (butlast stack)" by (meson in_set_butlastD)
    with "1.IH" False top have "snd (paren_while (out @ [last stack]) (butlast stack)) = []"
      by simp
    moreover have "paren_while out stack = paren_while (out @ [last stack]) (butlast stack)"
      using False top by (subst paren_while.simps) simp
    ultimately show ?thesis by simp
  qed
qed

lemma infix_loop_append:
  "infix_loop st (pre @ post) =
     (case infix_loop st pre of Inl e \<Rightarrow> Inl e | Inr st' \<Rightarrow> infix_loop st' post)"
proof (induction pre arbitrary: st)
  case Nil
  show ?case by (cases st) simp
next
  case (Cons t pre)
  obtain out stack where st: "st = (out, stack)" by (cases st)
  consider (operand) "is_operand t"
    | (operator) "\<not> is_operand t" "is_operator t"
    | (lparen) "\<not> is_operand t" "\<not> is_operator t" "t = ''(''"
    | (rparen) "\<not> is_operand t" "\<not> is_operator t" "t \<noteq> ''(''" "t = '')''"
    | (other) "\<not> is_operand t" "\<not> is_operator t" "t \<noteq> ''(''" "t \<noteq> '')''"
    by blast
  then show ?case
  proof cases
    case operand
    then show ?thesis unfolding st by (simp add: Cons.IH)
  next
    case operator
    show ?thesis
    proof (cases "operator_while t out stack")
      case (Inl e)
      with operator show ?thesis unfolding st by simp
    next
      case (Inr p)
      obtain out' stack' where "p = (out', stack')" by (cases p)
      with Inr operator show ?thesis unfolding st by (simp add: Cons.IH)
    qed
  next
    case lparen
    then show ?thesis unfolding st by (simp add: Cons.IH)
  next
    case rparen
    obtain out' stack' where pw: "paren_while out stack = (out', stack')"
      by (cases "paren_while out stack")
    show ?thesis
    proof (cases "stack' = []")
      case True
      with rparen pw show ?thesis unfolding st by simp
    next
      case False
      with rparen pw show ?thesis unfolding st by (simp add: Cons.IH)
    qed
  next
    case other
    then show ?thesis unfolding st by simp
  qed
qed

lemma close_paren_not_token: "\<not> is_operand '')''" "\<not> is_operator '')''"
  by (simp_all add: classify_defs)

lemma getitem_first: "tokens \<noteq> [] \<Longrightarrow> list_getitem tokens 0 = Inr (hd tokens)"
  by (cases tokens) (simp_all add: list_getitem_def)

lemma getitem_last: "tokens \<noteq> [] \<Longrightarrow> list_getitem tokens (- 1) = Inr (last tokens)"
proof -
  assume ne: "tokens \<noteq> []"
  then have "nat (- 1 + int (length tokens)) = length tokens - 1"
    by (cases tokens) simp_all
  with ne show ?thesis
    by (simp add: list_getitem_def last_conv_nth)
qed

section \<open>Properties of the evaluator\<close>

lemma exact64I:
  assumes q: "q = of_int n / 2 ^ k" and n: "\<bar>n\<bar> < 2 ^ 53" and k: "k \<le> 1074"
  shows "exact64 q"
proof -
  obtain n' d' where qo: "quotient_of q = (n', d')" by (cases "quotient_of q")
  then have q': "q = of_int n' / of_int d'" and pos: "0 < d'" and cop: "coprime n' d'"
    by (rule quotient_of_div, rule quotient_of_denom_pos, rule quotient_of_coprime)
  from q q' pos have "(of_int n' :: rat) * 2 ^ k = of_int n * of_int d'"
    by (simp add: field_simps)
  then have "(of_int (n' * 2 ^ k) :: rat) = of_int (n * d')" by simp
  then have eq: "n' * 2 ^ k = n * d'" by (simp only: of_int_eq_iff)
  then have "d' dvd n' * 2 ^ k" by simp
  with cop have dk: "d' dvd 2 ^ k"
    by (simp add: coprime_commute coprime_dvd_mult_right_iff)
  moreover from k have "(2::int) ^ k dvd 2 ^ 1074" by (rule le_imp_power_dvd)
  ultimately have d: "d' dvd 2 ^ 1074" by (rule dvd_trans)
  from dk have "d' \<le> 2 ^ k" by (simp add: zdvd_imp_le)
  then have "\<bar>n\<bar> * d' \<le> \<bar>n\<bar> * 2 ^ k" by (simp add: mult_left_mono)
  moreover from eq pos have "\<bar>n'\<bar> * 2 ^ k = \<bar>n\<bar> * d'"
    by (metis abs_mult abs_of_pos zero_less_numeral zero_less_power)
  ultimately have "\<bar>n'\<bar> * 2 ^ k \<le> \<bar>n\<bar> * 2 ^ k" by simp
  then have "\<bar>n'\<bar> \<le> \<bar>n\<bar>" by simp
  with n have "\<bar>n'\<bar> < 2 ^ 53" by simp
  with d qo show ?thesis by (simp add: exact64_def)
qed

lemma exact64_numeral: "numeral w < (2::int) ^ 53 \<Longrightarrow> exact64 (numeral w)"
  by (rule exact64I [of _ "numeral w" 0]) simp_all

lemma exact64_0: "exact64 0"
  by (rule exact64I [of _ 0 0]) simp_all

lemma exact64_1: "exact64 1"
  by (rule exact64I [of _ 1 0]) simp_all

lemma exact64_half: "numeral w < (2::int) ^ 53 \<Longrightarrow> exact64 (numeral w / 2)"
  by (rule exact64I [of _ "numeral w" 1]) simp_all

lemma exact64_one_half: "exact64 (1 / 2)"
  by (rule exact64I [of _ 1 1]) simp_all

lemmas exact64_simps = exact64_numeral exact64_0 exact64_1 exact64_half exact64_one_half

lemmas float_defs = py_float_def isdigit_char_def decimal_def lower_char_def fl_def
  float_args_def operations_def





lemma operations_operator: "is_operator v \<Longrightarrow> \<exists>f. operations v = Some f"
  by (auto simp: is_operator_def operations_def)




section \<open>Results\<close>



text \<open>
  C2. Every tree returned by \<open>build_tree_from_postfix\<close> or
  \<open>build_tree_from_prefix\<close> is a node (never \<^verbatim>\<open>None\<close>) and satisfies the node
  invariant at every node: an operand node has both children absent, an operator node
  has both children present.
\<close>

theorem built_tree_invariant:
  "(build_tree_from_postfix ts = Inr T \<longrightarrow> T \<noteq> NoneNode \<and> node_invariant T) \<and>
   (build_tree_from_prefix ps = Inr U \<longrightarrow> U \<noteq> NoneNode \<and> node_invariant U)"
  using build_postfix_ok build_prefix_ok by blast

theorem built_tree_invariant_witness:
  "build_tree_from_postfix [''3'', ''4'', ''+''] =
     Inr (TreeNode ''+'' (TreeNode ''3'' NoneNode NoneNode) (TreeNode ''4'' NoneNode NoneNode))
   \<and> build_tree_from_prefix [''/'', ''a'', ''b''] =
     Inr (TreeNode ''/'' (TreeNode ''a'' NoneNode NoneNode) (TreeNode ''b'' NoneNode NoneNode))
   \<and> node_invariant
       (TreeNode ''+'' (TreeNode ''3'' NoneNode NoneNode) (TreeNode ''4'' NoneNode NoneNode))
   \<and> node_invariant
       (TreeNode ''/'' (TreeNode ''a'' NoneNode NoneNode) (TreeNode ''b'' NoneNode NoneNode))"
proof -
  let ?T = "TreeNode ''+'' (TreeNode ''3'' NoneNode NoneNode) (TreeNode ''4'' NoneNode NoneNode)"
  let ?U = "TreeNode ''/'' (TreeNode ''a'' NoneNode NoneNode) (TreeNode ''b'' NoneNode NoneNode)"
  have post: "build_tree_from_postfix [''3'', ''4'', ''+''] = Inr ?T"
    by (simp add: build_tree_from_postfix_def classify_defs)
  have pre: "build_tree_from_prefix [''/'', ''a'', ''b''] = Inr ?U"
    by (simp add: build_tree_from_prefix_def classify_defs)
  from post pre built_tree_invariant [of "[''3'', ''4'', ''+'']" ?T "[''/'', ''a'', ''b'']" ?U]
  show ?thesis by blast
qed

text \<open>
  C9. \<open>build_tree_from_postfix\<close> raises its "Not enough operands" error whenever an
  operator token is reached while the build stack holds fewer than two items: if the
  tokens before the operator leave a stack of length below two, the whole call fails
  with that error, whatever follows. The input \<^verbatim>\<open>["3", "+"]\<close> is such a case.
\<close>

theorem postfix_insufficient_operands:
  "(postfix_loop [] pre = Inr stack \<and> length stack < 2 \<and> is_operator token \<longrightarrow>
      build_tree_from_postfix (pre @ token # rest) =
        Inl (ValueError ''Invalid postfix expression. Not enough operands.''))
   \<and> build_tree_from_postfix [''3'', ''+''] =
        Inl (ValueError ''Invalid postfix expression. Not enough operands.'')"
proof -
  have ex: "build_tree_from_postfix [''3'', ''+''] =
        Inl (ValueError ''Invalid postfix expression. Not enough operands.'')"
    by (simp add: build_tree_from_postfix_def classify_defs)
  have gen: "build_tree_from_postfix (pre @ token # rest) =
        Inl (ValueError ''Invalid postfix expression. Not enough operands.'')"
    if "postfix_loop [] pre = Inr stack" "length stack < 2" "is_operator token"
    using that operator_not_operand[of token]
    by (simp add: build_tree_from_postfix_def postfix_loop_append)
  from ex gen show ?thesis by blast
qed

theorem postfix_insufficient_operands_witness:
  "postfix_loop [] [''3'', ''4'', ''+''] =
     Inr [TreeNode ''+'' (TreeNode ''3'' NoneNode NoneNode) (TreeNode ''4'' NoneNode NoneNode)]
   \<and> is_operator ''*''
   \<and> build_tree_from_postfix ([''3'', ''4'', ''+''] @ ''*'' # [''5'']) =
        Inl (ValueError ''Invalid postfix expression. Not enough operands.'')"
proof -
  let ?stack = "[TreeNode ''+'' (TreeNode ''3'' NoneNode NoneNode) (TreeNode ''4'' NoneNode NoneNode)]"
  have loop: "postfix_loop [] [''3'', ''4'', ''+''] = Inr ?stack"
    by (simp add: classify_defs)
  have op: "is_operator ''*''" by (simp add: is_operator_def)
  have len: "length ?stack < 2" by simp
  from loop op len
    postfix_insufficient_operands [of "[''3'', ''4'', ''+'']" ?stack "''*''" "[''5'']"]
  show ?thesis by blast
qed

text \<open>
  C3. \<open>infix_to_postfix\<close> on the tokens \<^verbatim>\<open>7 * 8 - 2 / 4\<close> returns exactly
  \<^verbatim>\<open>7 8 * 2 4 / -\<close>.
\<close>

theorem infix_to_postfix_example:
  "infix_to_postfix [''7'', ''*'', ''8'', ''-'', ''2'', ''/'', ''4''] =
     Inr [''7'', ''8'', ''*'', ''2'', ''4'', ''/'', ''-'']"
  by (simp add: shunting_defs classify_defs)

text \<open>
  C5, as stated, fails on the code. The claim asks that every infix sequence with
  unbalanced parentheses makes the conversion fail with an unbalanced-parentheses
  error, the unclosed \<^verbatim>\<open>["(", "3", "+", "4"]\<close> included. On that input the source
  raises nothing: the final loop pops the \<^verbatim>\<open>(\<close> into the output and the call returns.
\<close>

theorem unclosed_paren_counterexample:
  "infix_to_postfix [''('', ''3'', ''+'', ''4''] = Inr [''3'', ''4'', ''+'', ''('']"
  by (simp add: shunting_defs classify_defs)

text \<open>
  C5, amended. The source has no check for balanced parentheses. When a \<^verbatim>\<open>)\<close> is
  read while no \<^verbatim>\<open>(\<close> is on the operator stack, the conversion does fail, with
  Python's \<^verbatim>\<open>IndexError\<close> from the \<^verbatim>\<open>stack.pop()\<close> that follows the loop, not with
  an error of its own. An unclosed \<^verbatim>\<open>(\<close> is not detected: once the token loop has
  ended, the call always returns the output followed by the stack in pop order, a
  remaining \<^verbatim>\<open>(\<close> included; \<^verbatim>\<open>["(", "3", "+", "4"]\<close> returns
  \<^verbatim>\<open>["3", "4", "+", "("]\<close>.
\<close>

theorem unbalanced_parentheses:
  "(infix_loop ([], []) pre = Inr (output, stack) \<and> ''('' \<notin> set stack \<longrightarrow>
      infix_to_postfix (pre @ '')'' # rest) = Inl IndexError)
   \<and> (infix_loop ([], []) expression = Inr (output', stack') \<longrightarrow>
      infix_to_postfix expression = Inr (output' @ rev stack'))
   \<and> infix_to_postfix [''('', ''3'', ''+'', ''4''] = Inr ([''3'', ''4''] @ rev [''('', ''+''])"
proof -
  have a: "infix_to_postfix (pre @ '')'' # rest) = Inl IndexError"
    if loop: "infix_loop ([], []) pre = Inr (out, stack)" and np: "''('' \<notin> set stack" for out
  proof -
    obtain o' s' where pw: "paren_while out stack = (o', s')" by (cases "paren_while out stack")
    with paren_while_no_paren[OF np, of out] have "s' = []" by simp
    with pw have "infix_loop (out, stack) ('')'' # rest) = Inl IndexError"
      by (simp add: close_paren_not_token)
    with loop show ?thesis by (simp add: infix_to_postfix_def infix_loop_append)
  qed
  have b: "infix_to_postfix expression = Inr (output' @ rev stack')"
    if "infix_loop ([], []) expression = Inr (output', stack')"
    using that by (simp add: infix_to_postfix_def final_while_rev)
  have c: "infix_to_postfix [''('', ''3'', ''+'', ''4''] = Inr ([''3'', ''4''] @ rev [''('', ''+''])"
    by (simp add: shunting_defs classify_defs)
  from a b c show ?thesis by blast
qed

theorem unbalanced_parentheses_witness:
  "infix_loop ([], []) [''3'', ''+'', ''4''] = Inr ([''3'', ''4''], [''+''])
   \<and> ''('' \<notin> set [''+'']
   \<and> infix_to_postfix ([''3'', ''+'', ''4''] @ '')'' # [''*'', ''2'']) = Inl IndexError
   \<and> infix_loop ([], []) [''('', ''3'', ''+'', ''4''] = Inr ([''3'', ''4''], [''('', ''+''])
   \<and> infix_to_postfix [''('', ''3'', ''+'', ''4''] = Inr ([''3'', ''4''] @ rev [''('', ''+''])"
proof -
  have l1: "infix_loop ([], []) [''3'', ''+'', ''4''] = Inr ([''3'', ''4''], [''+''])"
    by (simp add: shunting_defs classify_defs)
  have np: "''('' \<notin> set [''+'']" by simp
  have l2: "infix_loop ([], []) [''('', ''3'', ''+'', ''4''] = Inr ([''3'', ''4''], [''('', ''+''])"
    by (simp add: shunting_defs classify_defs)
  from l1 np l2
    unbalanced_parentheses [of "[''3'', ''+'', ''4'']" "[''3'', ''4'']" "[''+'']" "[''*'', ''2'']"
      "[''('', ''3'', ''+'', ''4'']" "[''3'', ''4'']" "[''('', ''+'']"]
  show ?thesis by blast
qed

text \<open>
  C6, as stated, fails on the code. The claim asks for an empty-expression error from
  a check made before the first or last token is indexed. The source makes no such
  check: on the empty sequence the subscript \<^verbatim>\<open>expression[0]\<close> itself raises
  \<^verbatim>\<open>IndexError\<close>.
\<close>

theorem detect_empty_counterexample:
  "detect_expression_type [] = Inl IndexError"
  by (simp add: detect_expression_type_def list_getitem_def)

text \<open>
  C6, amended. \<open>detect_expression_type\<close> fails exactly on the empty token sequence,
  and the failure is Python's \<^verbatim>\<open>IndexError\<close> raised by indexing the first token; there
  is no other failure and no emptiness check.
\<close>

theorem detect_fails_only_by_indexing:
  "(detect_expression_type tokens = Inl e) = (tokens = [] \<and> e = IndexError)"
proof (cases "tokens = []")
  case True
  then show ?thesis by (auto simp: detect_expression_type_def list_getitem_def)
next
  case False
  then show ?thesis
    by (simp add: detect_expression_type_def getitem_first getitem_last)
qed

theorem detect_fails_only_by_indexing_witness:
  "detect_expression_type [] = Inl IndexError
   \<and> list_getitem ([] :: string list) 0 = Inl IndexError"
  using detect_fails_only_by_indexing [of "[]" IndexError]
  by (simp add: list_getitem_def)

text \<open>
  C8. For every non-empty token sequence \<open>detect_expression_type\<close> returns
  \<^verbatim>\<open>prefix\<close> when the first token is an operator, otherwise \<^verbatim>\<open>postfix\<close> when the
  last token is an operator, otherwise \<^verbatim>\<open>infix\<close>. So \<^verbatim>\<open>+ 3 4\<close> is prefix,
  \<^verbatim>\<open>3 4 +\<close> is postfix, \<^verbatim>\<open>3 + 4\<close> is infix, and the single operand \<^verbatim>\<open>3\<close> is
  infix, not an error.
\<close>

theorem detect_rule:
  "(tokens \<noteq> [] \<longrightarrow>
      detect_expression_type tokens =
        Inr (if is_operator (hd tokens) then ''prefix''
             else if is_operator (last tokens) then ''postfix''
             else ''infix''))
   \<and> detect_expression_type [''+'', ''3'', ''4''] = Inr ''prefix''
   \<and> detect_expression_type [''3'', ''4'', ''+''] = Inr ''postfix''
   \<and> detect_expression_type [''3'', ''+'', ''4''] = Inr ''infix''
   \<and> detect_expression_type [''3''] = Inr ''infix''"
proof -
  have gen: "detect_expression_type tokens =
        Inr (if is_operator (hd tokens) then ''prefix''
             else if is_operator (last tokens) then ''postfix''
             else ''infix'')" if "tokens \<noteq> []" for tokens
    using that by (simp add: detect_expression_type_def getitem_first getitem_last)
  have "detect_expression_type [''+'', ''3'', ''4''] = Inr ''prefix''"
    by (simp add: gen is_operator_def)
  moreover have "detect_expression_type [''3'', ''4'', ''+''] = Inr ''postfix''"
    by (simp add: gen is_operator_def)
  moreover have "detect_expression_type [''3'', ''+'', ''4''] = Inr ''infix''"
    by (simp add: gen is_operator_def)
  moreover have "detect_expression_type [''3''] = Inr ''infix''"
    by (simp add: gen is_operator_def)
  ultimately show ?thesis using gen by blast
qed

theorem detect_rule_witness:
  "[''a'', ''b'', ''*''] \<noteq> [] \<and> detect_expression_type [''a'', ''b'', ''*''] = Inr ''postfix''"
  using detect_rule [of "[''a'', ''b'', ''*'']"]
  by (simp add: is_operator_def)

text \<open>
  C4. \<open>build_tree_from_postfix\<close> on \<^verbatim>\<open>7 8 * 2 4 / -\<close> returns the tree of
  \<^verbatim>\<open>7*8 - 2/4\<close>, and \<open>evaluate_tree\<close> on that tree returns the float 55.5, which is
  \<open>111 / 2\<close>. Every operand and every intermediate result (56 and 0.5) is a binary64
  number, so no rounding takes place.
\<close>

theorem evaluate_example:
  "build_tree_from_postfix [''7'', ''8'', ''*'', ''2'', ''4'', ''/'', ''-''] =
     Inr (TreeNode ''-''
            (TreeNode ''*'' (TreeNode ''7'' NoneNode NoneNode)
                            (TreeNode ''8'' NoneNode NoneNode))
            (TreeNode ''/'' (TreeNode ''2'' NoneNode NoneNode)
                            (TreeNode ''4'' NoneNode NoneNode)))
   \<and> evaluate_tree
        (TreeNode ''-''
            (TreeNode ''*'' (TreeNode ''7'' NoneNode NoneNode)
                            (TreeNode ''8'' NoneNode NoneNode))
            (TreeNode ''/'' (TreeNode ''2'' NoneNode NoneNode)
                            (TreeNode ''4'' NoneNode NoneNode)))
       = Returns (PyFloat (111 / 2))"
proof
  show "build_tree_from_postfix [''7'', ''8'', ''*'', ''2'', ''4'', ''/'', ''-''] =
     Inr (TreeNode ''-''
            (TreeNode ''*'' (TreeNode ''7'' NoneNode NoneNode)
                            (TreeNode ''8'' NoneNode NoneNode))
            (TreeNode ''/'' (TreeNode ''2'' NoneNode NoneNode)
                            (TreeNode ''4'' NoneNode NoneNode)))"
    by (simp add: build_tree_from_postfix_def classify_defs)
  show "evaluate_tree
        (TreeNode ''-''
            (TreeNode ''*'' (TreeNode ''7'' NoneNode NoneNode)
                            (TreeNode ''8'' NoneNode NoneNode))
            (TreeNode ''/'' (TreeNode ''2'' NoneNode NoneNode)
                            (TreeNode ''4'' NoneNode NoneNode)))
       = Returns (PyFloat (111 / 2))"
    by (simp add: classify_defs float_defs exact64_simps)
qed




text \<open>
  C10. On the empty token sequence both builders leave the loop with an empty stack,
  so the final check on the stack size fails: each raises its
  "Incorrect number of operands/operators" error. Neither returns a tree, and
  neither reports an empty expression.
\<close>

theorem build_tree_empty_malformed:
  "build_tree_from_postfix [] =
     Inl (ValueError ''Invalid postfix expression. Incorrect number of operands/operators.'')
   \<and> build_tree_from_prefix [] =
     Inl (ValueError ''Invalid prefix expression. Incorrect number of operands/operators.'')"
  by (simp add: build_tree_from_postfix_def build_tree_from_prefix_def)

end
